theory Spec2Isabelle
  imports Main "HOL-Library.Word"
begin

section \<open>The ORBUS serial bridge: data model\<close>

text \<open>
  The development follows \<^verbatim>\<open>src/hardware/serial_controller.cpp\<close> and
  \<^verbatim>\<open>src/hardware/uNavInterface.cpp\<close>. The C++ class \<^verbatim>\<open>serial_controller\<close> becomes a
  record of its members, every member function a function from the state to a result and
  the new state. What the functions do to the outside world (the serial port, the
  registered callbacks, the mutex) is written to a trace of events, in program order.
\<close>

type_synonym byte = "8 word"

text \<open>The values of \<^verbatim>\<open>serial_status_t\<close> that the controller assigns to \<^verbatim>\<open>mStatus\<close>.\<close>

datatype serial_status_t =
    SERIAL_OK
  | SERIAL_EMPTY
  | SERIAL_BUFFER_FULL
  | SERIAL_TIMEOUT
  | SERIAL_EXCEPTION
  | SERIAL_IOEXCEPTION

text \<open>
  Modelled from the spec: the declaration of \<^verbatim>\<open>packet_t\<close> is in a header that is not part
  of the sources. The spec's RawFrame is a byte sequence and a count of valid bytes. The
  list \<open>buffer\<close> is the whole fixed-size C array (its size is the capacity of the
  array); \<open>length_pkt\<close> is the member \<^verbatim>\<open>length\<close>, the number of bytes received into it.
\<close>

record packet_t =
  buffer :: "byte list"
  length_pkt :: nat

text \<open>
  Modelled from the spec: the declaration of \<^verbatim>\<open>packet_information_t\<close> is in a header that
  is not part of the sources. The spec's wire format puts the self-length at offset 0,
  the category (\<^verbatim>\<open>type\<close>) at offset 1, the option at offset 2, the command at offset 3 and
  the payload (\<^verbatim>\<open>message\<close>) from offset 4 on. \<open>message\<close> holds the payload bytes that
  are defined; the remaining bytes of the C union are indeterminate and not represented.
\<close>

record packet_information_t =
  length_info :: byte
  type :: byte
  option :: byte
  command :: byte
  message :: "byte list"

text \<open>
  The events of a run. \<open>Call cb option type command message\<close> is the invocation of a
  registered callback with the arguments that \<^verbatim>\<open>parse_packet\<close> passes. The others are
  the calls on \<^verbatim>\<open>mMutex\<close> and on the serial port \<^verbatim>\<open>mSerial\<close>.
\<close>

datatype 'h event =
    Call 'h byte byte byte "byte list"
  | Lock
  | Unlock
  | Serial_open
  | Serial_flush
  | Serial_write "byte list" nat
  | Serial_waitReadable
  | Serial_read

text \<open>
  Undefined behaviour of the C++ program is a value of the model: a function whose run
  would read an indeterminate member or touch memory outside an object returns the
  fault instead of a result.
\<close>

datatype fault =
    Read_outside_buffer
  | Write_outside_info
  | Indeterminate_member

subsection \<open>The loop of \<^verbatim>\<open>parse_packet\<close>\<close>

text \<open>
  The local \<^verbatim>\<open>info\<close> is declared without an initialiser, and only the bytes that
  \<^verbatim>\<open>memcpy\<close> writes are determinate afterwards. When at least the 4 bytes of the head
  are copied, \<^verbatim>\<open>info\<close> is \<open>Whole\<close>: all the members that the loop uses have values.
  When fewer are copied, \<^verbatim>\<open>info\<close> is only a \<open>Head\<close>, the list of the bytes copied (at most
  the length, the type and the option, in the order of the wire format); the other
  members are indeterminate.
\<close>

datatype info_copy = Whole packet_information_t | Head "byte list"

text \<open>
  \<^verbatim>\<open>memcpy((unsigned char*) &info, &receive.buffer[i], receive.buffer[i])\<close>. The number
  of bytes copied is the byte at \<open>i\<close> itself. \<open>M\<close> is \<^verbatim>\<open>sizeof(message_abstract_u)\<close>, a
  constant of the missing header, so that \<^verbatim>\<open>info\<close> has \<open>4 + M\<close> bytes.
  \<^item> Reading \<^verbatim>\<open>receive.buffer[i]\<close> or copying from beyond the end of the array is
    \<open>Read_outside_buffer\<close>. Nothing in the code compares the range with
    \<^verbatim>\<open>receive.length\<close>, so neither does the model.
  \<^item> Copying more than \<open>4 + M\<close> bytes overruns \<^verbatim>\<open>info\<close>: \<open>Write_outside_info\<close>.
\<close>

definition memcpy_info :: "nat \<Rightarrow> byte list \<Rightarrow> nat \<Rightarrow> fault + info_copy" where
  "memcpy_info M buf i =
     (if length buf \<le> i then Inl Read_outside_buffer
      else let n = unat (buf ! i) in
        if length buf < i + n then Inl Read_outside_buffer
        else if 4 + M < n then Inl Write_outside_info
        else if n < 4 then Inr (Head (take n (drop i buf)))
        else Inr (Whole \<lparr> length_info = buf ! i,
                          type = buf ! (i + 1),
                          option = buf ! (i + 2),
                          command = buf ! (i + 3),
                          message = take (n - 4) (drop (i + 4) buf) \<rparr>))"

text \<open>
  The body of the loop after the copy, on a whole \<^verbatim>\<open>info\<close>: a packet of type 0 is the
  alive message (only a debug line is printed); a packet whose type is in \<^verbatim>\<open>hashmap\<close>
  is passed to its callback; any other packet is passed over, without a trace.
\<close>

definition dispatch ::
  "(byte \<rightharpoonup> 'h) \<Rightarrow> packet_information_t \<Rightarrow> 'h event list \<Rightarrow> 'h event list" where
  "dispatch hashmap info tr =
     (if type info = 0 then tr
      else case hashmap (type info) of
             Some callback \<Rightarrow>
               tr @ [Call callback (option info) (type info) (command info) (message info)]
           | None \<Rightarrow> tr)"

text \<open>
  The body of the loop on any \<^verbatim>\<open>info\<close>. It reads \<^verbatim>\<open>info.type\<close> first, and the other
  members only to call a callback. On a head of 2 or 3 bytes the type is determinate:
  the alive message and a type that is not in \<^verbatim>\<open>hashmap\<close> go through as on a whole
  \<^verbatim>\<open>info\<close>, and only the call of a callback would read \<^verbatim>\<open>info.command\<close>, which was not
  copied. On a head of 0 or 1 bytes \<^verbatim>\<open>info.type\<close> itself was not copied.
\<close>

fun loop_body :: "(byte \<rightharpoonup> 'h) \<Rightarrow> info_copy \<Rightarrow> 'h event list \<Rightarrow> fault + 'h event list" where
  "loop_body hashmap (Whole info) tr = Inr (dispatch hashmap info tr)"
| "loop_body hashmap (Head (l # t # copied)) tr =
     (if t = 0 then Inr tr
      else case hashmap t of
             Some callback \<Rightarrow> Inl Indeterminate_member
           | None \<Rightarrow> Inr tr)"
| "loop_body hashmap (Head [l]) tr = Inl Indeterminate_member"
| "loop_body hashmap (Head []) tr = Inl Indeterminate_member"

text \<open>The descriptor of a whole \<^verbatim>\<open>info\<close>; a head has none.\<close>

fun whole :: "info_copy \<Rightarrow> packet_information_t list" where
  "whole (Whole info) = [info]"
| "whole (Head copied) = []"

text \<open>
  \<^verbatim>\<open>for (int i = 0; i < receive.length; i += receive.buffer[i])\<close>. The packets decoded
  so far are collected in \<open>infos\<close> (the program does not keep them: each is dispatched
  and dropped), the events in \<open>tr\<close>.
\<close>

function parse_loop ::
  "nat \<Rightarrow> (byte \<rightharpoonup> 'h) \<Rightarrow> packet_t \<Rightarrow> nat \<Rightarrow> packet_information_t list \<Rightarrow> 'h event list
     \<Rightarrow> fault + (packet_information_t list \<times> 'h event list)" where
  "parse_loop M hashmap receive i infos tr =
     (if i < length_pkt receive then
        (case memcpy_info M (buffer receive) i of
           Inl f \<Rightarrow> Inl f
         | Inr info \<Rightarrow>
             (case loop_body hashmap info tr of
                Inl f \<Rightarrow> Inl f
              | Inr tr' \<Rightarrow>
                  parse_loop M hashmap receive (i + unat (buffer receive ! i))
                    (infos @ whole info) tr'))
      else Inr (infos, tr))"
  by pat_completeness auto
termination
proof (relation "measure (\<lambda>(M, hashmap, receive, i, infos, tr). length_pkt receive - i)")
  show "wf (measure (\<lambda>(M, hashmap, receive, i, infos, tr). length_pkt receive - i))"
    by simp
next
  fix M :: nat and hashmap :: "byte \<rightharpoonup> 'h" and receive :: packet_t and i :: nat
    and infos :: "packet_information_t list" and tr tr' :: "'h event list"
    and info :: info_copy
  assume lt: "i < length_pkt receive"
    and cp: "memcpy_info M (buffer receive) i = Inr info"
    and lb: "loop_body hashmap info tr = Inr tr'"
  have "0 < unat (buffer receive ! i)"
  proof (rule ccontr)
    assume "\<not> 0 < unat (buffer receive ! i)"
    then have "unat (buffer receive ! i) = 0" by simp
    with cp have "info = Head []"
      by (auto simp: memcpy_info_def Let_def split: if_splits)
    with lb show False by simp
  qed
  with lt show "((M, hashmap, receive, i + unat (buffer receive ! i), infos @ whole info, tr'),
                 (M, hashmap, receive, i, infos, tr))
                \<in> measure (\<lambda>(M, hashmap, receive, i, infos, tr). length_pkt receive - i)"
    by simp
qed

declare parse_loop.simps [simp del]

subsection \<open>The serial port and the ORBUS library\<close>

text \<open>
  The serial port \<^verbatim>\<open>mSerial\<close> is outside the program. Its answers are given in
  advance, as scripts: what the block of \<^verbatim>\<open>open\<close>, \<^verbatim>\<open>setBaudrate\<close> and \<^verbatim>\<open>setTimeout\<close> does,
  what each \<^verbatim>\<open>write\<close> does, and what each turn of the reading loop finds. A \<^verbatim>\<open>write\<close> after
  the end of its script writes every byte; a \<^verbatim>\<open>waitReadable\<close> after the end of its script
  finds nothing to read before the timeout.
\<close>

datatype open_result = Open_IOException | Open_returns bool

datatype write_result = Written nat | Write_SerialException | Write_IOException

datatype read_result =
    Not_readable
  | Readable "byte list"
  | Read_SerialException
  | Read_IOException

record serial =
  isOpen :: bool
  on_open :: open_result
  on_write :: "write_result list"
  on_read :: "read_result list"

text \<open>
  The constants and functions of the ORBUS C library that the controller calls and the
  sources do not contain are parameters of the model. \<open>'d\<close> is the private state of the
  library's frame decoder. \<open>encoder\<close> returns the packet it wrote together with the
  number of packets encoded, \<open>build_pkg\<close> the content of \<^verbatim>\<open>BufferTx\<close>, and \<open>decode_pkgs\<close>
  takes a byte, the decoder's state and the receive packet \<^verbatim>\<open>mReceive\<close> (registered by
  \<^verbatim>\<open>orb_message_init\<close>) and returns whether a frame is complete, with both updated.
\<close>

record 'd or_bus =
  sizeof_message :: nat
  LNG_PACKET_HEADER :: nat
  PACKET_REQUEST :: byte
  encoder :: "packet_information_t list \<Rightarrow> packet_t \<times> nat"
  encoderSingle :: "packet_information_t \<Rightarrow> packet_t"
  build_pkg :: "packet_t \<Rightarrow> byte list"
  decode_pkgs :: "byte \<Rightarrow> 'd \<Rightarrow> packet_t \<Rightarrow> bool \<times> 'd \<times> packet_t"

text \<open>
  Modelled from the spec: the macro \<^verbatim>\<open>CREATE_PACKET_RESPONSE(cmd, type, opt)\<close> is in the
  missing header. It is a packet with an empty payload, whose self-length is the 4 bytes
  of its head.
\<close>

definition CREATE_PACKET_RESPONSE :: "byte \<Rightarrow> byte \<Rightarrow> byte \<Rightarrow> packet_information_t" where
  "CREATE_PACKET_RESPONSE cmd t opt =
     \<lparr> length_info = 4, type = t, option = opt, command = cmd, message = [] \<rparr>"

subsection \<open>The controller\<close>

record ('h, 'd) serial_controller =
  mSerial :: serial
  mStatus :: serial_status_t
  mStopping :: bool
  mReceive :: packet_t
  decoder :: 'd
  hashmap :: "byte \<rightharpoonup> 'h"
  list_send :: "packet_information_t list"
  trace :: "'h event list"

definition log :: "'h event \<Rightarrow> ('h, 'd) serial_controller \<Rightarrow> ('h, 'd) serial_controller" where
  "log e st = st\<lparr>trace := trace st @ [e]\<rparr>"

definition addCallback ::
  "'h \<Rightarrow> byte \<Rightarrow> ('h, 'd) serial_controller \<Rightarrow> bool \<times> ('h, 'd) serial_controller" where
  "addCallback callback t st =
     (if hashmap st t \<noteq> None then (False, st)
      else (True, st\<lparr>hashmap := (hashmap st)(t \<mapsto> callback)\<rparr>))"

text \<open>The two overloads of \<^verbatim>\<open>addFrame\<close>: a vector of packets, and one packet.\<close>

definition addFrame_list ::
  "packet_information_t list \<Rightarrow> ('h, 'd) serial_controller \<Rightarrow> ('h, 'd) serial_controller" where
  "addFrame_list packet st =
     log Unlock ((log Lock st)\<lparr>list_send := list_send st @ packet\<rparr>)"

definition addFrame ::
  "packet_information_t \<Rightarrow> ('h, 'd) serial_controller \<Rightarrow> ('h, 'd) serial_controller" where
  "addFrame packet st =
     log Unlock ((log Lock st)\<lparr>list_send := list_send st @ [packet]\<rparr>)"

definition resetList :: "('h, 'd) serial_controller \<Rightarrow> ('h, 'd) serial_controller" where
  "resetList st = log Unlock ((log Lock st)\<lparr>list_send := []\<rparr>)"

definition getStatus :: "('h, 'd) serial_controller \<Rightarrow> serial_status_t" where
  "getStatus st = mStatus st"

text \<open>
  \<^verbatim>\<open>parse_packet\<close>. The callbacks are taken not to change the controller (its
  \<^verbatim>\<open>hashmap\<close> in particular) while the loop runs.
\<close>

definition parse_packet ::
  "nat \<Rightarrow> packet_t \<Rightarrow> ('h, 'd) serial_controller
     \<Rightarrow> fault + (bool \<times> ('h, 'd) serial_controller)" where
  "parse_packet M receive st =
     (if 0 < length_pkt receive then
        (case parse_loop M (hashmap st) receive 0 [] (trace st) of
           Inl f \<Rightarrow> Inl f
         | Inr (infos, tr) \<Rightarrow> Inr (True, st\<lparr>trace := tr, mStatus := SERIAL_OK\<rparr>))
      else Inr (False, st\<lparr>mStatus := SERIAL_EMPTY\<rparr>))"

text \<open>
  \<^verbatim>\<open>writePacket\<close>: the frame built by \<^verbatim>\<open>build_pkg\<close> is handed to \<^verbatim>\<open>mSerial.write\<close> with
  \<^verbatim>\<open>dataSize\<close>; the two exceptions set the status.
\<close>

definition writePacket ::
  "'d or_bus \<Rightarrow> packet_t \<Rightarrow> ('h, 'd) serial_controller \<Rightarrow> bool \<times> ('h, 'd) serial_controller" where
  "writePacket lib packet st =
     (let dataSize = LNG_PACKET_HEADER lib + length_pkt packet + 1;
          BufferTx = build_pkg lib packet;
          port = mSerial st;
          result = (case on_write port of [] \<Rightarrow> Written dataSize | r # rs \<Rightarrow> r);
          st1 = log (Serial_write BufferTx dataSize)
                  (st\<lparr>mSerial := port\<lparr>on_write := tl (on_write port)\<rparr>\<rparr>)
      in case result of
           Write_SerialException \<Rightarrow> (False, st1\<lparr>mStatus := SERIAL_EXCEPTION\<rparr>)
         | Write_IOException \<Rightarrow> (False, st1\<lparr>mStatus := SERIAL_IOEXCEPTION\<rparr>)
         | Written written \<Rightarrow> (written = dataSize, st1))"

text \<open>
  The inner loop of \<^verbatim>\<open>readPacket\<close>: every byte of the reply goes to \<^verbatim>\<open>decode_pkgs\<close>, and
  the first complete frame ends \<^verbatim>\<open>readPacket\<close> (the rest of the reply is dropped).
\<close>

fun feed :: "'d or_bus \<Rightarrow> byte list \<Rightarrow> 'd \<Rightarrow> packet_t \<Rightarrow> bool \<times> 'd \<times> packet_t" where
  "feed lib [] d r = (False, d, r)"
| "feed lib (data # reply) d r =
     (case decode_pkgs lib data d r of
        (True, d', r') \<Rightarrow> (True, d', r')
      | (False, d', r') \<Rightarrow> feed lib reply d' r')"

text \<open>The \<^verbatim>\<open>do ... while(true)\<close> of \<^verbatim>\<open>readPacket\<close>, over what is left of the port's script.\<close>

fun readPacket_loop ::
  "'d or_bus \<Rightarrow> read_result list \<Rightarrow> ('h, 'd) serial_controller
     \<Rightarrow> bool \<times> read_result list \<times> ('h, 'd) serial_controller" where
  "readPacket_loop lib [] st =
     (if mStopping st then (False, [], st)
      else (False, [], (log Serial_waitReadable st)\<lparr>mStatus := SERIAL_TIMEOUT\<rparr>))"
| "readPacket_loop lib (r # rs) st =
     (if mStopping st then (False, r # rs, st)
      else case r of
        Not_readable \<Rightarrow> (False, rs, (log Serial_waitReadable st)\<lparr>mStatus := SERIAL_TIMEOUT\<rparr>)
      | Read_SerialException \<Rightarrow>
          (False, rs, (log Serial_read (log Serial_waitReadable st))\<lparr>mStatus := SERIAL_EXCEPTION\<rparr>)
      | Read_IOException \<Rightarrow>
          (False, rs, (log Serial_read (log Serial_waitReadable st))\<lparr>mStatus := SERIAL_IOEXCEPTION\<rparr>)
      | Readable reply \<Rightarrow>
          (let st1 = log Serial_read (log Serial_waitReadable st) in
           case feed lib reply (decoder st1) (mReceive st1) of
             (True, d', r') \<Rightarrow> (True, rs, st1\<lparr>decoder := d', mReceive := r'\<rparr>)
           | (False, d', r') \<Rightarrow> readPacket_loop lib rs (st1\<lparr>decoder := d', mReceive := r'\<rparr>)))"

definition readPacket ::
  "'d or_bus \<Rightarrow> ('h, 'd) serial_controller \<Rightarrow> bool \<times> ('h, 'd) serial_controller" where
  "readPacket lib st =
     (case readPacket_loop lib (on_read (mSerial st)) st of
        (ok, rs, st') \<Rightarrow> (ok, st'\<lparr>mSerial := (mSerial st')\<lparr>on_read := rs\<rparr>\<rparr>))"

text \<open>
  \<^verbatim>\<open>sendSerialPacket\<close>. The result of \<^verbatim>\<open>writePacket\<close> is not looked at. The packet
  \<^verbatim>\<open>empty\<close> has only its length set; its buffer is never read.
\<close>

definition sendSerialPacket ::
  "'d or_bus \<Rightarrow> packet_t \<Rightarrow> ('h, 'd) serial_controller \<Rightarrow> packet_t \<times> ('h, 'd) serial_controller" where
  "sendSerialPacket lib packet st =
     (let empty = \<lparr> buffer = [], length_pkt = 0 \<rparr> in
      if isOpen (mSerial st) then
        (case readPacket lib (snd (writePacket lib packet st)) of
           (True, st') \<Rightarrow> (mReceive st', st')
         | (False, st') \<Rightarrow> (empty, st'))
      else (empty, st))"

text \<open>The two overloads of \<^verbatim>\<open>sendSerialFrame\<close>: one packet, and a vector of packets.\<close>

definition sendSerialFrame ::
  "'d or_bus \<Rightarrow> packet_information_t \<Rightarrow> ('h, 'd) serial_controller
     \<Rightarrow> fault + (bool \<times> ('h, 'd) serial_controller)" where
  "sendSerialFrame lib frame st =
     (let packet = encoderSingle lib frame in
      case sendSerialPacket lib packet st of
        (receive, st') \<Rightarrow> parse_packet (sizeof_message lib) receive st')"

definition sendSerialFrame_list ::
  "'d or_bus \<Rightarrow> packet_information_t list \<Rightarrow> ('h, 'd) serial_controller
     \<Rightarrow> fault + (bool \<times> ('h, 'd) serial_controller)" where
  "sendSerialFrame_list lib list_send' st =
     (if list_send' \<noteq> [] then
        (case encoder lib list_send' of
           (packet, n_packet) \<Rightarrow>
             if n_packet = length list_send' then
               (case sendSerialPacket lib packet st of
                  (receive, st') \<Rightarrow> parse_packet (sizeof_message lib) receive st')
             else Inr (True, st\<lparr>mStatus := SERIAL_BUFFER_FULL\<rparr>))
      else Inr (True, st))"

definition sendList ::
  "'d or_bus \<Rightarrow> ('h, 'd) serial_controller \<Rightarrow> fault + (bool \<times> ('h, 'd) serial_controller)" where
  "sendList lib st =
     (case sendSerialFrame_list lib (list_send st) (log Lock st) of
        Inl f \<Rightarrow> Inl f
      | Inr (state, st') \<Rightarrow>
          Inr (state, log Unlock (if state then st'\<lparr>list_send := []\<rparr> else st')))"



subsection \<open>The wire format\<close>

text \<open>
  Modelled from the spec: the bytes of one sub-packet on the wire, self-length first,
  then category, option, command and the payload. The library's encoder is not in the
  sources.
\<close>

definition encode_info :: "packet_information_t \<Rightarrow> byte list" where
  "encode_info info =
     length_info info # type info # option info # command info # message info"

text \<open>
  Modelled from the spec: a valid descriptor's self-length is the encoded size of the
  sub-packet, and its payload is within the maximal size \<open>M\<close> of a message.
\<close>

definition valid_info :: "nat \<Rightarrow> packet_information_t \<Rightarrow> bool" where
  "valid_info M info =
     (unat (length_info info) = 4 + length (message info) \<and> length (message info) \<le> M)"

text \<open>
  Modelled from the spec: the library function \<^verbatim>\<open>encoder\<close> is not in the sources. It lays
  the sub-packets out one after the other, and fails when the result is larger than the
  capacity \<open>cap\<close> of a frame. The controller sees the failure as a number of encoded
  packets that is not the size of the batch; the model returns 0 then.
\<close>

definition encoder_model :: "nat \<Rightarrow> packet_information_t list \<Rightarrow> packet_t \<times> nat" where
  "encoder_model cap batch =
     (let bytes = concat (map encode_info batch) in
      if length bytes \<le> cap then (\<lparr> buffer = bytes, length_pkt = length bytes \<rparr>, length batch)
      else (\<lparr> buffer = [], length_pkt = 0 \<rparr>, 0))"

text \<open>The events of a list of packets that are dispatched one after the other.\<close>

definition dispatch_all ::
  "(byte \<rightharpoonup> 'h) \<Rightarrow> packet_information_t list \<Rightarrow> 'h event list \<Rightarrow> 'h event list" where
  "dispatch_all hm infos tr = foldl (\<lambda>t info. dispatch hm info t) tr infos"

text \<open>
  The receive packet that holds the given sub-packets, one after the other, from the
  start of its buffer, and after them whatever bytes \<open>slack\<close> the array held before.
\<close>

definition received :: "packet_information_t list \<Rightarrow> byte list \<Rightarrow> packet_t" where
  "received batch slack =
     \<lparr> buffer = concat (map encode_info batch) @ slack,
       length_pkt = length (concat (map encode_info batch)) \<rparr>"

subsection \<open>The mutex in the trace\<close>

text \<open>
  Whether a blocking call on the serial port (\<^verbatim>\<open>write\<close>, \<^verbatim>\<open>waitReadable\<close>, \<^verbatim>\<open>read\<close>) occurs in
  a trace while \<^verbatim>\<open>mMutex\<close> is locked; \<open>held\<close> says whether it is locked at the start.
\<close>

fun serial_call_locked :: "bool \<Rightarrow> 'h event list \<Rightarrow> bool" where
  "serial_call_locked held [] = False"
| "serial_call_locked held (Lock # es) = serial_call_locked True es"
| "serial_call_locked held (Unlock # es) = serial_call_locked False es"
| "serial_call_locked held (Serial_write b n # es) = (held \<or> serial_call_locked held es)"
| "serial_call_locked held (Serial_waitReadable # es) = (held \<or> serial_call_locked held es)"
| "serial_call_locked held (Serial_read # es) = (held \<or> serial_call_locked held es)"
| "serial_call_locked held (Call h opt t cmd msg # es) = serial_call_locked held es"
| "serial_call_locked held (Serial_open # es) = serial_call_locked held es"
| "serial_call_locked held (Serial_flush # es) = serial_call_locked held es"

subsection \<open>The motor callback of \<^verbatim>\<open>uNavInterface\<close>\<close>

text \<open>
  \<^verbatim>\<open>allMotorsFrame\<close> either hands the frame to the motor of a name (\<open>MotorFrame\<close>) or
  prints a warning (\<open>Warn\<close>); \<^verbatim>\<open>mMotorName.at\<close> throws \<^verbatim>\<open>std::out_of_range\<close> on an index
  that is not below the size of the vector.
\<close>

datatype unav_event =
    MotorFrame string byte byte byte "byte list"
  | Warn int

datatype unav_exception = Out_of_range

text \<open>\<^verbatim>\<open>std::vector::at\<close>, on the index converted to the unsigned \<^verbatim>\<open>size_type\<close>.\<close>

definition at :: "'a list \<Rightarrow> nat \<Rightarrow> unav_exception + 'a" where
  "at v n = (if n < length v then Inr (v ! n) else Inl Out_of_range)"

text \<open>
  The union \<^verbatim>\<open>motor_command_map_t\<close> is declared in the missing header: what its bit
  fields \<^verbatim>\<open>bitset.motor\<close> and \<^verbatim>\<open>bitset.command\<close> read from the command byte are the
  parameters \<open>bitset_motor\<close> and \<open>bitset_command\<close>. A bit field of an unsigned char is
  not negative, so \<open>number_motor\<close> is the \<open>int\<close> of a \<open>nat\<close>.
\<close>

definition allMotorsFrame ::
  "(byte \<Rightarrow> nat) \<Rightarrow> (byte \<Rightarrow> byte) \<Rightarrow> string list
     \<Rightarrow> byte \<Rightarrow> byte \<Rightarrow> byte \<Rightarrow> byte list \<Rightarrow> unav_exception + unav_event" where
  "allMotorsFrame bitset_motor bitset_command mMotorName opt t cmd msg =
     (let number_motor = int (bitset_motor cmd) in
      if number_motor \<ge> 0 \<or> number_motor < int (length mMotorName) then
        (case at mMotorName (nat number_motor) of
           Inl e \<Rightarrow> Inl e
         | Inr name \<Rightarrow> Inr (MotorFrame name opt t (bitset_command cmd) msg))
      else Inr (Warn number_motor))"

subsection \<open>Instances for running the model\<close>

text \<open>
  The constructor of \<^verbatim>\<open>serial_controller\<close>: \<^verbatim>\<open>orb_message_init\<close>, \<^verbatim>\<open>orb_frame_init\<close> and
  \<^verbatim>\<open>mStatus = SERIAL_OK\<close>. The member \<^verbatim>\<open>mStopping\<close> has no initialiser and is a parameter;
  the timeout \<^verbatim>\<open>mTimeout\<close> is part of the port's script.
\<close>

definition constructor :: "serial \<Rightarrow> 'd \<Rightarrow> bool \<Rightarrow> ('h, 'd) serial_controller" where
  "constructor port d stopping =
     \<lparr> mSerial = port, mStatus = SERIAL_OK, mStopping = stopping,
       mReceive = \<lparr> buffer = [], length_pkt = 0 \<rparr>, decoder = d,
       hashmap = Map.empty, list_send = [], trace = [] \<rparr>"

text \<open>
  An instance of the library's parameters, on which the closed examples run: messages of
  at most 4 bytes, packets of at most 16, no frame header, a frame check byte 0, and a
  decoder that takes the first byte of a frame as the number of bytes of the frame. The
  framing of the library itself is not in the sources, and no general statement below
  depends on this instance.
\<close>

definition bare_bus :: "byte list or_bus" where
  "bare_bus =
     \<lparr> sizeof_message = 4, LNG_PACKET_HEADER = 0, PACKET_REQUEST = 0,
       encoder = encoder_model 16,
       encoderSingle = (\<lambda>info. fst (encoder_model 16 [info])),
       build_pkg = (\<lambda>p. buffer p @ [0]),
       decode_pkgs = (\<lambda>data d r.
          let acc = d @ [data]
          in if length acc = unat (hd acc)
             then (True, [], \<lparr> buffer = acc, length_pkt = length acc \<rparr>)
             else (False, acc, r)) \<rparr>"

section \<open>Properties\<close>

subsection \<open>Decoding a frame of well-formed sub-packets\<close>

lemma memcpy_info_encode:
  assumes "valid_info M d"
  shows "memcpy_info M (pre @ encode_info d @ rest) (length pre) = Inr (Whole d)"
  using assms
  by (simp add: memcpy_info_def valid_info_def encode_info_def Let_def nth_append)

lemma length_encode_info: "valid_info M d \<Longrightarrow> length (encode_info d) = unat (length_info d)"
  by (simp add: valid_info_def encode_info_def)

lemma parse_loop_encoded:
  assumes "\<forall>d \<in> set batch. valid_info M d"
  shows "parse_loop M hm
           \<lparr> buffer = pre @ concat (map encode_info batch) @ slack,
             length_pkt = length pre + length (concat (map encode_info batch)) \<rparr>
           (length pre) infos tr
         = Inr (infos @ batch, dispatch_all hm batch tr)"
  using assms
proof (induction batch arbitrary: pre infos tr)
  case Nil
  then show ?case by (simp add: dispatch_all_def parse_loop.simps)
next
  case (Cons d batch)
  have v: "valid_info M d" using Cons.prems by simp
  have len: "length (encode_info d) = unat (length_info d)"
    using v by (rule length_encode_info)
  have pos: "0 < length (encode_info d)" by (simp add: encode_info_def)
  have cp: "memcpy_info M (pre @ encode_info d @ concat (map encode_info batch) @ slack)
              (length pre) = Inr (Whole d)"
    using v by (rule memcpy_info_encode)
  have at: "(pre @ encode_info d @ concat (map encode_info batch) @ slack) ! length pre
              = length_info d"
    by (simp add: encode_info_def)
  have IH: "parse_loop M hm
           \<lparr> buffer = (pre @ encode_info d) @ concat (map encode_info batch) @ slack,
             length_pkt = length (pre @ encode_info d) + length (concat (map encode_info batch)) \<rparr>
           (length (pre @ encode_info d)) (infos @ [d]) (dispatch hm d tr)
         = Inr ((infos @ [d]) @ batch, dispatch_all hm batch (dispatch hm d tr))"
    using Cons.prems by (intro Cons.IH) simp
  show ?case
    using IH cp at pos len
    by (subst parse_loop.simps) (simp add: dispatch_all_def add.assoc)
qed

subsection \<open>What a round trip leaves unchanged, and what it adds to the trace\<close>


lemma dispatch_extends: "\<exists>es. dispatch hm info tr = tr @ es \<and> Lock \<notin> set es \<and> Unlock \<notin> set es"
  by (auto simp: dispatch_def split: option.splits)

lemma loop_body_extends:
  "loop_body hm info tr = Inr tr' \<Longrightarrow>
     \<exists>es. tr' = tr @ es \<and> Lock \<notin> set es \<and> Unlock \<notin> set es"
proof (induction hm info tr rule: loop_body.induct)
  case (1 hm info tr)
  then show ?case using dispatch_extends [of hm info tr] by auto
next
  case (2 hm l t copied tr)
  then show ?case by (auto split: if_splits option.splits)
qed simp_all

lemma parse_loop_extends:
  "parse_loop M hm r i infos tr = Inr (infos', tr') \<Longrightarrow>
     \<exists>es. tr' = tr @ es \<and> Lock \<notin> set es \<and> Unlock \<notin> set es"
proof (induction M hm r i infos tr rule: parse_loop.induct)
  case (1 M hm r i infos tr)
  show ?case
  proof (cases "i < length_pkt r")
    case False
    with "1.prems" show ?thesis by (simp add: parse_loop.simps)
  next
    case True
    with "1.prems" obtain info tr1 where cp: "memcpy_info M (buffer r) i = Inr info"
      and lb: "loop_body hm info tr = Inr tr1"
      and rec: "parse_loop M hm r (i + unat (buffer r ! i)) (infos @ whole info) tr1
                  = Inr (infos', tr')"
      by (subst (asm) parse_loop.simps) (auto split: sum.splits)
    from "1.IH" [OF True cp lb rec] obtain es where
      es: "tr' = tr1 @ es" "Lock \<notin> set es" "Unlock \<notin> set es" by blast
    from loop_body_extends [OF lb] obtain ds where
      ds: "tr1 = tr @ ds" "Lock \<notin> set ds" "Unlock \<notin> set ds" by blast
    from es ds have "tr' = tr @ (ds @ es) \<and> Lock \<notin> set (ds @ es) \<and> Unlock \<notin> set (ds @ es)"
      by simp
    then show ?thesis by blast
  qed
qed

lemma parse_packet_keeps:
  assumes "parse_packet M r st = Inr (ok, st')"
  shows "mSerial st' = mSerial st" and "mStopping st' = mStopping st"
    and "list_send st' = list_send st"
    and "\<exists>es. trace st' = trace st @ es \<and> Lock \<notin> set es \<and> Unlock \<notin> set es"
  using assms
  by (auto simp: parse_packet_def split: if_splits sum.splits dest: parse_loop_extends)

lemma writePacket_keeps:
  "isOpen (mSerial (snd (writePacket lib p st))) = isOpen (mSerial st)"
  "mStopping (snd (writePacket lib p st)) = mStopping st"
  "list_send (snd (writePacket lib p st)) = list_send st"
  "trace (snd (writePacket lib p st)) =
     trace st @ [Serial_write (build_pkg lib p) (LNG_PACKET_HEADER lib + length_pkt p + 1)]"
  by (simp_all add: writePacket_def Let_def log_def split: write_result.splits)

lemma readPacket_loop_keeps:
  "readPacket_loop lib rs st = (ok, rs', st') \<Longrightarrow>
     mSerial st' = mSerial st \<and> mStopping st' = mStopping st \<and> list_send st' = list_send st \<and>
     (\<exists>es. trace st' = trace st @ es \<and> Lock \<notin> set es \<and> Unlock \<notin> set es)"
proof (induction lib rs st rule: readPacket_loop.induct)
  case (1 lib st)
  then show ?case by (auto simp: log_def split: if_splits)
next
  case (2 lib r rs st)
  show ?case
  proof (cases "mStopping st")
    case True
    with "2.prems" show ?thesis by simp
  next
    case False
    show ?thesis
    proof (cases r)
      case (Readable reply)
      define st1 where "st1 = log Serial_read (log Serial_waitReadable st)"
      obtain b d' r' where fd: "feed lib reply (decoder st1) (mReceive st1) = (b, d', r')"
        by (cases "feed lib reply (decoder st1) (mReceive st1)") auto
      show ?thesis
      proof (cases b)
        case True
        with "2.prems" False Readable fd show ?thesis
          by (auto simp: st1_def log_def Let_def)
      next
        case nb: False
        from "2.prems" False Readable fd nb
        have rec: "readPacket_loop lib rs (st1\<lparr>decoder := d', mReceive := r'\<rparr>) = (ok, rs', st')"
          by (simp add: st1_def Let_def)
        from "2.IH" [OF False Readable st1_def fd [symmetric] _ _ rec] nb
        have "mSerial st' = mSerial (st1\<lparr>decoder := d', mReceive := r'\<rparr>) \<and>
              mStopping st' = mStopping (st1\<lparr>decoder := d', mReceive := r'\<rparr>) \<and>
              list_send st' = list_send (st1\<lparr>decoder := d', mReceive := r'\<rparr>) \<and>
              (\<exists>es. trace st' = trace (st1\<lparr>decoder := d', mReceive := r'\<rparr>) @ es \<and>
                    Lock \<notin> set es \<and> Unlock \<notin> set es)"
          by simp
        then show ?thesis
          by (auto simp: st1_def log_def)
      qed
    qed (use "2.prems" False in \<open>auto simp: log_def\<close>)
  qed
qed


lemma readPacket_keeps:
  assumes "readPacket lib st = (ok, st')"
  shows "isOpen (mSerial st') = isOpen (mSerial st)" and "mStopping st' = mStopping st"
    and "list_send st' = list_send st"
    and "\<exists>es. trace st' = trace st @ es \<and> Lock \<notin> set es \<and> Unlock \<notin> set es"
proof -
  obtain b rs s where l: "readPacket_loop lib (on_read (mSerial st)) st = (b, rs, s)"
    by (cases "readPacket_loop lib (on_read (mSerial st)) st") auto
  from assms l have st': "st' = s\<lparr>mSerial := (mSerial s)\<lparr>on_read := rs\<rparr>\<rparr>"
    by (simp add: readPacket_def)
  from readPacket_loop_keeps [OF l] st'
  show "isOpen (mSerial st') = isOpen (mSerial st)" and "mStopping st' = mStopping st"
    and "list_send st' = list_send st"
    and "\<exists>es. trace st' = trace st @ es \<and> Lock \<notin> set es \<and> Unlock \<notin> set es"
    by simp_all
qed

lemma sendSerialPacket_keeps:
  assumes "sendSerialPacket lib p st = (receive, st')"
  shows "isOpen (mSerial st') = isOpen (mSerial st)" and "mStopping st' = mStopping st"
    and "list_send st' = list_send st"
proof -
  show "isOpen (mSerial st') = isOpen (mSerial st)"
    using assms readPacket_keeps(1) [of lib "snd (writePacket lib p st)"]
    by (auto simp: sendSerialPacket_def Let_def writePacket_keeps split: if_splits prod.splits bool.splits)
  show "mStopping st' = mStopping st"
    using assms readPacket_keeps(2) [of lib "snd (writePacket lib p st)"]
    by (auto simp: sendSerialPacket_def Let_def writePacket_keeps split: if_splits prod.splits bool.splits)
  show "list_send st' = list_send st"
    using assms readPacket_keeps(3) [of lib "snd (writePacket lib p st)"]
    by (auto simp: sendSerialPacket_def Let_def writePacket_keeps split: if_splits prod.splits bool.splits)
qed

lemma sendSerialPacket_trace:
  assumes "sendSerialPacket lib p st = (receive, st')" and "isOpen (mSerial st)"
  shows "\<exists>es. trace st' =
           trace st @ [Serial_write (build_pkg lib p) (LNG_PACKET_HEADER lib + length_pkt p + 1)] @ es
           \<and> Lock \<notin> set es \<and> Unlock \<notin> set es"
proof -
  obtain b s where r: "readPacket lib (snd (writePacket lib p st)) = (b, s)"
    by (cases "readPacket lib (snd (writePacket lib p st))") auto
  with assms have "st' = s"
    by (auto simp: sendSerialPacket_def Let_def split: bool.splits)
  with readPacket_keeps(4) [OF r] show ?thesis
    by (simp add: writePacket_keeps)
qed


subsection \<open>Dispatching a list of packets\<close>

lemma dispatch_all_known:
  assumes "\<forall>d \<in> set xs. type d \<noteq> 0 \<and> hm (type d) = Some (cb (type d))"
  shows "dispatch_all hm xs tr =
           tr @ map (\<lambda>d. Call (cb (type d)) (option d) (type d) (command d) (message d)) xs"
  using assms
  by (induction xs arbitrary: tr) (simp_all add: dispatch_all_def dispatch_def)

lemma parse_packet_received:
  assumes "\<forall>d \<in> set batch. valid_info M d" and "batch \<noteq> []"
  shows "parse_packet M (received batch slack) st =
           Inr (True, st\<lparr>trace := dispatch_all (hashmap st) batch (trace st), mStatus := SERIAL_OK\<rparr>)"
proof -
  obtain d ds where b: "batch = d # ds" using assms(2) by (cases batch) auto
  have pos: "0 < length (concat (map encode_info batch))"
    by (simp add: b encode_info_def)
  have "parse_loop M (hashmap st) (received batch slack) 0 [] (trace st)
          = Inr (batch, dispatch_all (hashmap st) batch (trace st))"
    using parse_loop_encoded [OF assms(1), of "hashmap st" "[]" slack "[]" "trace st"]
    by (simp add: received_def)
  with pos show ?thesis
    by (simp add: parse_packet_def received_def)
qed

lemma parse_packet_short_alive:
  "parse_packet 4 \<lparr> buffer = [3, 0, 0, 3, 0, 0, 0, 0], length_pkt = 6 \<rparr> st
     = Inr (True, st\<lparr>mStatus := SERIAL_OK\<rparr>)"
  by (simp add: parse_packet_def parse_loop.simps memcpy_info_def)

lemma encoder_model_full:
  "encoder_model cap (replicate (Suc cap) d) = (\<lparr> buffer = [], length_pkt = 0 \<rparr>, 0)"
proof -
  have "length (concat (map encode_info (replicate (Suc cap) d)))
          = Suc cap * length (encode_info d)"
    by (simp add: length_concat sum_list_replicate)
  moreover have "Suc cap * 1 \<le> Suc cap * length (encode_info d)"
    by (rule mult_le_mono2) (simp add: encode_info_def)
  ultimately have "cap < length (concat (map encode_info (replicate (Suc cap) d)))"
    by simp
  then show ?thesis by (simp add: encoder_model_def Let_def)
qed

section \<open>The claims\<close>

text \<open>
  C1 (the code departs from the claim). The claim: decoding rejects a frame, with no
  sub-packet delivered, whenever a self-length would carry it beyond the length of the
  frame or is zero, and never reads beyond the received bytes. The code: in a receive
  packet of 4 received bytes whose first sub-packet declares 8, \<^verbatim>\<open>parse_packet\<close> copies
  8 bytes, hands the 4 stale bytes behind the frame to the callback as the message,
  sets \<^verbatim>\<open>SERIAL_OK\<close> and returns true. With a self-length of zero nothing is copied and
  the loop works on an indeterminate \<^verbatim>\<open>info\<close> (and would not advance). The bytes at
  offsets 1 and 2 are equal, so the run is the same whichever of them the missing header
  declares as \<^verbatim>\<open>type\<close> and as \<^verbatim>\<open>option\<close>.
\<close>

theorem parse_packet_trusts_self_length:
  "parse_packet 4 \<lparr> buffer = [8, 5, 5, 1, 9, 9, 9, 9], length_pkt = 4 \<rparr>
      (st\<lparr>hashmap := [5 \<mapsto> h]\<rparr>)
    = Inr (True, st\<lparr>hashmap := [5 \<mapsto> h],
                      trace := trace st @ [Call h 5 5 1 [9, 9, 9, 9]],
                      mStatus := SERIAL_OK\<rparr>)
   \<and> parse_packet 4 \<lparr> buffer = [0, 5, 5, 1], length_pkt = 4 \<rparr> st = Inl Indeterminate_member"
  by (simp add: parse_packet_def parse_loop.simps memcpy_info_def dispatch_def)

text \<open>
  C2 (the code departs from the claim). The claim: a batch too large for a frame is
  rejected with \<^verbatim>\<open>BufferFull\<close>, nothing is transmitted, the send reports failure and the
  pending queue is left as it was. The code: with a frame capacity of \<open>cap\<close> bytes and
  \<open>cap + 1\<close> packets in the queue, \<^verbatim>\<open>sendList\<close> sets \<^verbatim>\<open>SERIAL_BUFFER_FULL\<close> and writes
  nothing, but \<^verbatim>\<open>sendSerialFrame\<close> falls through to \<^verbatim>\<open>return true\<close>, and \<^verbatim>\<open>sendList\<close>
  clears the queue and returns true.
\<close>

theorem sendList_buffer_full_returns_true:
  "sendList (lib\<lparr>encoder := encoder_model cap\<rparr>) (st\<lparr>list_send := replicate (Suc cap) d\<rparr>)
     = Inr (True, st\<lparr>list_send := [], mStatus := SERIAL_BUFFER_FULL,
                       trace := trace st @ [Lock, Unlock]\<rparr>)"
  using encoder_model_full [of cap d]
  by (simp add: sendList_def sendSerialFrame_list_def log_def)

text \<open>
  C3 (the code departs from the claim). The claim: after a round trip without a reply
  \<^verbatim>\<open>getStatus()\<close> is \<^verbatim>\<open>TIMEOUT\<close>, after a reply of length zero it is \<^verbatim>\<open>EMPTY\<close>, and the two
  differ. The code: \<^verbatim>\<open>readPacket\<close> does set \<^verbatim>\<open>SERIAL_TIMEOUT\<close> when \<^verbatim>\<open>waitReadable\<close> fails,
  but \<^verbatim>\<open>sendSerialPacket\<close> then returns a packet of length 0 and \<^verbatim>\<open>parse_packet\<close>
  overwrites the status with \<^verbatim>\<open>SERIAL_EMPTY\<close>, which is also the status after a
  complete frame of length zero.
\<close>

theorem timeout_status_overwritten:
  "getStatus (snd (readPacket lib
        (st\<lparr>mStopping := False,
             mSerial := \<lparr> isOpen = True, on_open = oo, on_write = ws,
                          on_read = Not_readable # rs \<rparr>\<rparr>))) = SERIAL_TIMEOUT
   \<and> map_sum id (\<lambda>(ok, st'). (ok, getStatus st'))
       (sendSerialFrame lib frame
          (st\<lparr>mStopping := False,
               mSerial := \<lparr> isOpen = True, on_open = oo, on_write = ws,
                            on_read = Not_readable # rs \<rparr>\<rparr>))
      = Inr (False, SERIAL_EMPTY)
   \<and> map_sum id (\<lambda>(ok, st'). (ok, getStatus st'))
       (sendSerialFrame (lib\<lparr>decode_pkgs := \<lambda>data d r. (True, d, r\<lparr>length_pkt := 0\<rparr>)\<rparr>) frame
          (st\<lparr>mStopping := False,
               mSerial := \<lparr> isOpen = True, on_open = oo, on_write = ws,
                            on_read = Readable [x] # rs \<rparr>\<rparr>))
      = Inr (False, SERIAL_EMPTY)"
  by (simp add: sendSerialFrame_def sendSerialPacket_def readPacket_def writePacket_def
      parse_packet_def getStatus_def log_def Let_def split: write_result.splits list.splits)

text \<open>
  C4. When a category is already bound in \<^verbatim>\<open>hashmap\<close>, another \<^verbatim>\<open>addCallback\<close> for it
  returns false and leaves the controller as it was; a frame with a sub-packet of that
  category (not 0, which is never dispatched) then invokes the callback that was
  registered first, and only that one.
\<close>

theorem addCallback_duplicate_rejected:
  "hashmap st t = Some h \<Longrightarrow>
     addCallback h' t st = (False, st) \<and>
     (valid_info M info \<and> type info = t \<and> t \<noteq> 0 \<longrightarrow>
        parse_packet M (received [info] slack) (snd (addCallback h' t st))
          = Inr (True, st\<lparr>trace := trace st @ [Call h (option info) t (command info) (message info)],
                           mStatus := SERIAL_OK\<rparr>))"
  by (simp add: addCallback_def parse_packet_received dispatch_all_def dispatch_def)

theorem addCallback_duplicate_rejected_witness:
  "hashmap (snd (addCallback ''systemFrame'' 1
       (constructor \<lparr> isOpen = True, on_open = Open_returns True, on_write = [], on_read = [] \<rparr>
          ([] :: byte list) False))) 1 = Some ''systemFrame''
   \<and> addCallback ''allMotorsFrame'' 1 (snd (addCallback ''systemFrame'' 1
       (constructor \<lparr> isOpen = True, on_open = Open_returns True, on_write = [], on_read = [] \<rparr>
          ([] :: byte list) False)))
     = (False, snd (addCallback ''systemFrame'' 1
       (constructor \<lparr> isOpen = True, on_open = Open_returns True, on_write = [], on_read = [] \<rparr>
          ([] :: byte list) False)))
   \<and> valid_info 4 \<lparr> length_info = 5, type = 1, option = 1, command = 3, message = [7] \<rparr>
   \<and> parse_packet 4
        (received [\<lparr> length_info = 5, type = 1, option = 1, command = 3, message = [7] \<rparr>] [])
        (snd (addCallback ''allMotorsFrame'' 1 (snd (addCallback ''systemFrame'' 1
          (constructor \<lparr> isOpen = True, on_open = Open_returns True, on_write = [], on_read = [] \<rparr>
             ([] :: byte list) False)))))
      = Inr (True, (snd (addCallback ''systemFrame'' 1
          (constructor \<lparr> isOpen = True, on_open = Open_returns True, on_write = [], on_read = [] \<rparr>
             ([] :: byte list) False)))
            \<lparr>trace := [Call ''systemFrame'' 1 1 3 [7]], mStatus := SERIAL_OK\<rparr>)"
proof -
  let ?T = "(snd (addCallback ''systemFrame'' 1
          (constructor \<lparr> isOpen = True, on_open = Open_returns True, on_write = [], on_read = [] \<rparr>
             ([] :: byte list) False)))
            \<lparr>trace := [Call ''systemFrame'' 1 1 3 [7]], mStatus := SERIAL_OK\<rparr>"
  let ?S = "snd (addCallback ''systemFrame'' 1
       (constructor \<lparr> isOpen = True, on_open = Open_returns True, on_write = [], on_read = [] \<rparr>
          ([] :: byte list) False))"
  let ?i = "\<lparr> length_info = 5, type = 1, option = 1, command = 3, message = [7] \<rparr>"
  have h: "hashmap ?S 1 = Some ''systemFrame''"
    by (simp add: addCallback_def constructor_def)
  have v: "valid_info 4 ?i" by (simp add: valid_info_def)
  have t: "trace ?S = []" by (simp add: addCallback_def constructor_def)
  have pre: "valid_info 4 ?i \<and> type ?i = 1 \<and> (1 :: byte) \<noteq> 0"
    using v by simp
  note w = addCallback_duplicate_rejected [OF h, of "''allMotorsFrame''" 4 ?i "[]"]
  from w have a: "addCallback ''allMotorsFrame'' 1 ?S = (False, ?S)" by blast
  from w pre have "parse_packet 4 (received [?i] []) (snd (addCallback ''allMotorsFrame'' 1 ?S))
      = Inr (True, ?S\<lparr>trace := trace ?S @ [Call ''systemFrame'' (option ?i) 1 (command ?i) (message ?i)],
                        mStatus := SERIAL_OK\<rparr>)"
    by blast
  then have b: "parse_packet 4 (received [?i] []) (snd (addCallback ''allMotorsFrame'' 1 ?S))
      = Inr (True, ?T)"
    by (simp add: t)
  from h a v b show ?thesis by blast
qed

text \<open>
  C5. A reply that holds only one sub-packet of category 0 invokes no callback, whatever
  is registered: \<^verbatim>\<open>parse_packet\<close> returns true and changes nothing but the status, which
  is \<^verbatim>\<open>SERIAL_OK\<close>; and a round trip of \<^verbatim>\<open>sendSerialFrame\<close> that receives this reply
  returns true.
\<close>

theorem alive_frame_no_dispatch:
  "valid_info (sizeof_message lib) info \<Longrightarrow> type info = 0 \<Longrightarrow>
     parse_packet (sizeof_message lib) (received [info] slack) st
       = Inr (True, st\<lparr>mStatus := SERIAL_OK\<rparr>) \<and>
     (sendSerialPacket lib (encoderSingle lib frame) st0 = (received [info] slack, st) \<longrightarrow>
        sendSerialFrame lib frame st0 = Inr (True, st\<lparr>mStatus := SERIAL_OK\<rparr>))"
  by (simp add: parse_packet_received dispatch_all_def dispatch_def sendSerialFrame_def)

theorem alive_frame_no_dispatch_witness:
  "valid_info (sizeof_message bare_bus) (CREATE_PACKET_RESPONSE 0 0 0)
   \<and> type (CREATE_PACKET_RESPONSE 0 0 0) = 0
   \<and> fst (sendSerialPacket bare_bus (encoderSingle bare_bus (CREATE_PACKET_RESPONSE 0 0 0))
        (constructor \<lparr> isOpen = True, on_open = Open_returns True, on_write = [],
                        on_read = [Readable [4, 0, 0, 0]] \<rparr> [] False
           :: (string, byte list) serial_controller))
       = received [CREATE_PACKET_RESPONSE 0 0 0] []
   \<and> map_sum id (\<lambda>(ok, st'). (ok, getStatus st', trace st'))
       (sendSerialFrame bare_bus (CREATE_PACKET_RESPONSE 0 0 0)
        (constructor \<lparr> isOpen = True, on_open = Open_returns True, on_write = [],
                        on_read = [Readable [4, 0, 0, 0]] \<rparr> [] False
           :: (string, byte list) serial_controller))
      = Inr (True, SERIAL_OK, [Serial_write [4, 0, 0, 0, 0] 5, Serial_waitReadable, Serial_read])"
proof -
  let ?probe = "CREATE_PACKET_RESPONSE 0 0 0"
  let ?S0 = "constructor \<lparr> isOpen = True, on_open = Open_returns True, on_write = [],
                        on_read = [Readable [4, 0, 0, 0]] \<rparr> [] False
           :: (string, byte list) serial_controller"
  let ?r = "sendSerialPacket bare_bus (encoderSingle bare_bus ?probe) ?S0"
  have v: "valid_info (sizeof_message bare_bus) ?probe"
    by (simp add: valid_info_def CREATE_PACKET_RESPONSE_def bare_bus_def)
  have t: "type ?probe = 0" by (simp add: CREATE_PACKET_RESPONSE_def)
  have f: "fst ?r = received [?probe] []"
    by (simp add: sendSerialPacket_def readPacket_def writePacket_def constructor_def
        bare_bus_def encoder_model_def encode_info_def CREATE_PACKET_RESPONSE_def received_def
        log_def Let_def)
  have tr: "trace (snd ?r) = [Serial_write [4, 0, 0, 0, 0] 5, Serial_waitReadable, Serial_read]"
    by (simp add: sendSerialPacket_def readPacket_def writePacket_def constructor_def
        bare_bus_def encoder_model_def encode_info_def CREATE_PACKET_RESPONSE_def
        log_def Let_def)
  have p: "?r = (received [?probe] [], snd ?r)"
    using f by (simp add: prod_eq_iff)
  from alive_frame_no_dispatch [OF v t, of "[]" "snd ?r" ?probe ?S0] p
  have "sendSerialFrame bare_bus ?probe ?S0 = Inr (True, (snd ?r)\<lparr>mStatus := SERIAL_OK\<rparr>)"
    by blast
  with v t f tr show ?thesis by (simp add: getStatus_def)
qed

text \<open>
  C6 (amended). The claim asks for one \<^verbatim>\<open>UnknownType\<close> record for the sub-packet whose
  category has no callback. The controller has no such record: the frame with the
  unknown sub-packet leaves exactly the result, the status and the trace of the frame
  without it.
\<close>

theorem unknown_type_not_recorded_counterexample:
  "parse_packet 4
     (received [\<lparr> length_info = 4, type = 1, option = 1, command = 3, message = [] \<rparr>,
                \<lparr> length_info = 4, type = 9, option = 9, command = 0, message = [] \<rparr>,
                \<lparr> length_info = 5, type = 2, option = 2, command = 1, message = [7] \<rparr>] [])
     ((constructor \<lparr> isOpen = True, on_open = Open_returns True, on_write = [], on_read = [] \<rparr>
         ([] :: byte list) False)
        \<lparr>hashmap := [1 \<mapsto> ''systemFrame'', 2 \<mapsto> ''allMotorsFrame'']\<rparr>)
   = parse_packet 4
     (received [\<lparr> length_info = 4, type = 1, option = 1, command = 3, message = [] \<rparr>,
                \<lparr> length_info = 5, type = 2, option = 2, command = 1, message = [7] \<rparr>] [])
     ((constructor \<lparr> isOpen = True, on_open = Open_returns True, on_write = [], on_read = [] \<rparr>
         ([] :: byte list) False)
        \<lparr>hashmap := [1 \<mapsto> ''systemFrame'', 2 \<mapsto> ''allMotorsFrame'']\<rparr>)
   \<and> map_sum id (\<lambda>(ok, st'). (ok, getStatus st', trace st'))
     (parse_packet 4
       (received [\<lparr> length_info = 4, type = 1, option = 1, command = 3, message = [] \<rparr>,
                  \<lparr> length_info = 4, type = 9, option = 9, command = 0, message = [] \<rparr>,
                  \<lparr> length_info = 5, type = 2, option = 2, command = 1, message = [7] \<rparr>] [])
       ((constructor \<lparr> isOpen = True, on_open = Open_returns True, on_write = [], on_read = [] \<rparr>
           ([] :: byte list) False)
          \<lparr>hashmap := [1 \<mapsto> ''systemFrame'', 2 \<mapsto> ''allMotorsFrame'']\<rparr>))
     = Inr (True, SERIAL_OK,
            [Call ''systemFrame'' 1 1 3 [], Call ''allMotorsFrame'' 2 2 1 [7]])"
  by (simp add: parse_packet_def received_def encode_info_def parse_loop.simps memcpy_info_def
      dispatch_def constructor_def getStatus_def)

text \<open>
  C6, as amended: in a frame of well-formed sub-packets with one sub-packet \<open>u\<close> of a
  category without a callback among sub-packets of registered categories,
  \<^verbatim>\<open>parse_packet\<close> invokes the callback of each of the others once, in the order of the
  sub-packets and with its option, category, command and message, passes over \<open>u\<close>
  without recording anything, goes on with the sub-packets after it, and returns true
  with \<^verbatim>\<open>SERIAL_OK\<close>.
\<close>

theorem unknown_type_passed_over:
  assumes "\<forall>d \<in> set (xs @ u # ys). valid_info M d"
    and "\<forall>d \<in> set (xs @ ys). type d \<noteq> 0 \<and> hashmap st (type d) = Some (cb (type d))"
    and "type u \<noteq> 0" and "hashmap st (type u) = None"
  shows "parse_packet M (received (xs @ u # ys) slack) st =
           Inr (True, st\<lparr>trace := trace st @
                  map (\<lambda>d. Call (cb (type d)) (option d) (type d) (command d) (message d)) (xs @ ys),
                mStatus := SERIAL_OK\<rparr>)"
proof -
  have kx: "\<forall>d \<in> set xs. type d \<noteq> 0 \<and> hashmap st (type d) = Some (cb (type d))"
    and ky: "\<forall>d \<in> set ys. type d \<noteq> 0 \<and> hashmap st (type d) = Some (cb (type d))"
    using assms(2) by auto
  have u: "dispatch (hashmap st) u tr = tr" for tr
    using assms(3,4) by (simp add: dispatch_def)
  have "dispatch_all (hashmap st) (xs @ u # ys) (trace st) =
          dispatch_all (hashmap st) ys (dispatch (hashmap st) u (dispatch_all (hashmap st) xs (trace st)))"
    by (simp add: dispatch_all_def)
  also have "\<dots> = trace st @
      map (\<lambda>d. Call (cb (type d)) (option d) (type d) (command d) (message d)) (xs @ ys)"
    by (simp add: u dispatch_all_known [OF kx] dispatch_all_known [OF ky])
  finally show ?thesis
    using parse_packet_received [OF assms(1), of slack st] by simp
qed

theorem unknown_type_passed_over_witness:
  "valid_info 4 \<lparr> length_info = 4, type = 1, option = 1, command = 3, message = [] \<rparr>
   \<and> valid_info 4 \<lparr> length_info = 4, type = 9, option = 9, command = 0, message = [] \<rparr>
   \<and> valid_info 4 \<lparr> length_info = 5, type = 2, option = 2, command = 1, message = [7] \<rparr>
   \<and> [1 \<mapsto> ''systemFrame'', 2 \<mapsto> ''allMotorsFrame''] (1 :: byte) = Some ''systemFrame''
   \<and> [1 \<mapsto> ''systemFrame'', 2 \<mapsto> ''allMotorsFrame''] (2 :: byte) = Some ''allMotorsFrame''
   \<and> [1 \<mapsto> ''systemFrame'', 2 \<mapsto> ''allMotorsFrame''] (9 :: byte) = None
   \<and> parse_packet 4
       (received [\<lparr> length_info = 4, type = 1, option = 1, command = 3, message = [] \<rparr>,
                  \<lparr> length_info = 4, type = 9, option = 9, command = 0, message = [] \<rparr>,
                  \<lparr> length_info = 5, type = 2, option = 2, command = 1, message = [7] \<rparr>] [])
       ((constructor \<lparr> isOpen = True, on_open = Open_returns True, on_write = [], on_read = [] \<rparr>
           ([] :: byte list) False)
          \<lparr>hashmap := [1 \<mapsto> ''systemFrame'', 2 \<mapsto> ''allMotorsFrame'']\<rparr>)
     = Inr (True,
         (constructor \<lparr> isOpen = True, on_open = Open_returns True, on_write = [], on_read = [] \<rparr>
           ([] :: byte list) False)
          \<lparr>hashmap := [1 \<mapsto> ''systemFrame'', 2 \<mapsto> ''allMotorsFrame''],
            trace := [Call ''systemFrame'' 1 1 3 [], Call ''allMotorsFrame'' 2 2 1 [7]],
            mStatus := SERIAL_OK\<rparr>)"
proof -
  let ?s = "\<lparr> length_info = 4, type = 1, option = 1, command = 3, message = [] \<rparr>"
  let ?u = "\<lparr> length_info = 4, type = 9, option = 9, command = 0, message = [] \<rparr>"
  let ?m = "\<lparr> length_info = 5, type = 2, option = 2, command = 1, message = [7] \<rparr>"
  let ?hm = "[1 \<mapsto> ''systemFrame'', 2 \<mapsto> ''allMotorsFrame''] :: byte \<rightharpoonup> string"
  let ?S = "(constructor \<lparr> isOpen = True, on_open = Open_returns True, on_write = [], on_read = [] \<rparr>
           ([] :: byte list) False) \<lparr>hashmap := ?hm\<rparr>"
  let ?cb = "\<lambda>t :: byte. if t = 1 then ''systemFrame'' else ''allMotorsFrame''"
  have v: "valid_info 4 ?s" "valid_info 4 ?u" "valid_info 4 ?m"
    by (simp_all add: valid_info_def)
  have hm: "?hm 1 = Some ''systemFrame''" "?hm 2 = Some ''allMotorsFrame''" "?hm 9 = None"
    by simp_all
  have 1: "\<forall>d \<in> set ([?s] @ ?u # [?m]). valid_info 4 d" using v by simp
  have 2: "\<forall>d \<in> set ([?s] @ [?m]). type d \<noteq> 0 \<and> hashmap ?S (type d) = Some (?cb (type d))"
    by simp
  have 3: "type ?u \<noteq> 0" by simp
  have 4: "hashmap ?S (type ?u) = None" by simp
  from unknown_type_passed_over [OF 1 2 3 4, of "[]"]
  have "parse_packet 4 (received [?s, ?u, ?m] []) ?S
          = Inr (True, ?S\<lparr>trace := [Call ''systemFrame'' 1 1 3 [], Call ''allMotorsFrame'' 2 2 1 [7]],
                           mStatus := SERIAL_OK\<rparr>)"
    by (simp add: constructor_def)
  with v hm show ?thesis by simp
qed




text \<open>
  C8. For a batch of valid descriptors whose encoding fits the capacity of a frame, the
  encoder takes the whole batch, lays the sub-packets out as self-length, category,
  option, command, payload, one after the other, and the loop of \<^verbatim>\<open>parse_packet\<close> on
  the encoded packet decodes exactly the batch, in order.
\<close>

theorem decode_encode_roundtrip:
  assumes "\<forall>d \<in> set batch. valid_info M d"
    and "length (concat (map encode_info batch)) \<le> cap"
  shows "snd (encoder_model cap batch) = length batch \<and>
         buffer (fst (encoder_model cap batch)) = concat (map encode_info batch) \<and>
         parse_loop M hm (fst (encoder_model cap batch)) 0 [] tr
           = Inr (batch, dispatch_all hm batch tr)"
  using assms(2) parse_loop_encoded [OF assms(1), of hm "[]" "[]" "[]" tr]
  by (simp add: encoder_model_def Let_def)

theorem decode_encode_roundtrip_witness:
  "valid_info 4 (CREATE_PACKET_RESPONSE 0 0 0)
   \<and> valid_info 4 \<lparr> length_info = 5, type = 2, option = 2, command = 1, message = [7] \<rparr>
   \<and> length (concat (map encode_info
        [CREATE_PACKET_RESPONSE 0 0 0,
         \<lparr> length_info = 5, type = 2, option = 2, command = 1, message = [7] \<rparr>])) \<le> 16
   \<and> snd (encoder_model 16
        [CREATE_PACKET_RESPONSE 0 0 0,
         \<lparr> length_info = 5, type = 2, option = 2, command = 1, message = [7] \<rparr>])
      = length [CREATE_PACKET_RESPONSE 0 0 0,
         \<lparr> length_info = 5, type = 2, option = 2, command = 1, message = [7] \<rparr>]
   \<and> buffer (fst (encoder_model 16
        [CREATE_PACKET_RESPONSE 0 0 0,
         \<lparr> length_info = 5, type = 2, option = 2, command = 1, message = [7] \<rparr>]))
      = [4, 0, 0, 0, 5, 2, 2, 1, 7]
   \<and> parse_loop 4 (Map.empty :: byte \<rightharpoonup> string)
        (fst (encoder_model 16
          [CREATE_PACKET_RESPONSE 0 0 0,
           \<lparr> length_info = 5, type = 2, option = 2, command = 1, message = [7] \<rparr>])) 0 [] []
      = Inr ([CREATE_PACKET_RESPONSE 0 0 0,
              \<lparr> length_info = 5, type = 2, option = 2, command = 1, message = [7] \<rparr>],
             dispatch_all Map.empty
               [CREATE_PACKET_RESPONSE 0 0 0,
                \<lparr> length_info = 5, type = 2, option = 2, command = 1, message = [7] \<rparr>] [])"
proof -
  let ?p = "CREATE_PACKET_RESPONSE 0 0 0"
  let ?m = "\<lparr> length_info = 5, type = 2, option = 2, command = 1, message = [7] \<rparr>"
  have v: "valid_info 4 ?p" "valid_info 4 ?m"
    by (simp_all add: valid_info_def CREATE_PACKET_RESPONSE_def)
  have 1: "\<forall>d \<in> set [?p, ?m]. valid_info 4 d" using v by simp
  have 2: "length (concat (map encode_info [?p, ?m])) \<le> 16"
    by (simp add: encode_info_def CREATE_PACKET_RESPONSE_def)
  have b: "concat (map encode_info [?p, ?m]) = [4, 0, 0, 0, 5, 2, 2, 1, 7]"
    by (simp add: encode_info_def CREATE_PACKET_RESPONSE_def)
  note w = decode_encode_roundtrip [OF 1 2, of "Map.empty :: byte \<rightharpoonup> string" "[]"]
  from w b have "buffer (fst (encoder_model 16 [?p, ?m])) = [4, 0, 0, 0, 5, 2, 2, 1, 7]"
    by (elim conjE) (rule trans)
  with w v 2 show ?thesis by blast
qed

text \<open>
  C9 (amended). The claim: the mutex of the pending queue is never held across a blocking
  call on the serial port, in any send, append or reset. The code: \<^verbatim>\<open>sendList\<close> locks
  \<^verbatim>\<open>mMutex\<close>, runs the whole round trip of \<^verbatim>\<open>sendSerialFrame\<close> and unlocks afterwards. With
  one packet in the queue and a port that is open and silent, the write and the wait for
  the reply both happen between the lock and the unlock.
\<close>

theorem sendList_locked_write_counterexample:
  "serial_call_locked False
     (case sendList bare_bus
        (addFrame (CREATE_PACKET_RESPONSE 0 0 0)
           (constructor \<lparr> isOpen = True, on_open = Open_returns True, on_write = [], on_read = [] \<rparr>
              [] False :: (string, byte list) serial_controller))
      of Inl f \<Rightarrow> [] | Inr (state, st') \<Rightarrow> trace st')
   \<and> (case sendList bare_bus
        (addFrame (CREATE_PACKET_RESPONSE 0 0 0)
           (constructor \<lparr> isOpen = True, on_open = Open_returns True, on_write = [], on_read = [] \<rparr>
              [] False :: (string, byte list) serial_controller))
      of Inl f \<Rightarrow> [] | Inr (state, st') \<Rightarrow> trace st')
     = [Lock, Unlock, Lock, Serial_write [4, 0, 0, 0, 0] 5, Serial_waitReadable, Unlock]"
  by (simp add: sendList_def sendSerialFrame_list_def sendSerialPacket_def readPacket_def
      writePacket_def parse_packet_def addFrame_def constructor_def bare_bus_def
      encoder_model_def encode_info_def CREATE_PACKET_RESPONSE_def log_def Let_def)

text \<open>
  C9, as amended: \<^verbatim>\<open>addFrame\<close> (both overloads) and \<^verbatim>\<open>resetList\<close> lock the mutex, change the
  queue and unlock, with no call on the serial port in between. \<^verbatim>\<open>sendList\<close> holds the
  mutex over the round trip: when the queue is not empty, the encoder takes the whole
  queue and the port is open, the write of the frame follows the lock, and everything
  up to the end of \<^verbatim>\<open>parse_packet\<close> happens before the one unlock.
\<close>

theorem mutex_scope:
  "trace (addFrame packet st) = trace st @ [Lock, Unlock] \<and>
   trace (addFrame_list packets st) = trace st @ [Lock, Unlock] \<and>
   trace (resetList st) = trace st @ [Lock, Unlock] \<and>
   (list_send st \<noteq> [] \<and> encoder lib (list_send st) = (p, length (list_send st)) \<and>
    isOpen (mSerial st) \<and> sendList lib st = Inr (state, st') \<longrightarrow>
      (\<exists>es. trace st' =
              trace st @ Lock # Serial_write (build_pkg lib p) (LNG_PACKET_HEADER lib + length_pkt p + 1)
                # es @ [Unlock]
            \<and> Lock \<notin> set es \<and> Unlock \<notin> set es
            \<and> serial_call_locked False
                (Lock # Serial_write (build_pkg lib p) (LNG_PACKET_HEADER lib + length_pkt p + 1)
                   # es @ [Unlock])))"
proof -
  have "\<exists>es. trace st' =
              trace st @ Lock # Serial_write (build_pkg lib p) (LNG_PACKET_HEADER lib + length_pkt p + 1)
                # es @ [Unlock]
            \<and> Lock \<notin> set es \<and> Unlock \<notin> set es
            \<and> serial_call_locked False
                (Lock # Serial_write (build_pkg lib p) (LNG_PACKET_HEADER lib + length_pkt p + 1)
                   # es @ [Unlock])"
    if ne: "list_send st \<noteq> []" and enc: "encoder lib (list_send st) = (p, length (list_send st))"
      and op: "isOpen (mSerial st)" and sl: "sendList lib st = Inr (state, st')"
  proof -
    obtain receive s1 where sp: "sendSerialPacket lib p (log Lock st) = (receive, s1)"
      by (cases "sendSerialPacket lib p (log Lock st)") auto
    have op': "isOpen (mSerial (log Lock st))" using op by (simp add: log_def)
    from sendSerialPacket_trace [OF sp op'] obtain es1 where
      es1: "trace s1 = trace st @ Lock #
              Serial_write (build_pkg lib p) (LNG_PACKET_HEADER lib + length_pkt p + 1) # es1"
        "Lock \<notin> set es1" "Unlock \<notin> set es1"
      by (auto simp: log_def)
    have fl: "sendSerialFrame_list lib (list_send st) (log Lock st)
                = parse_packet (sizeof_message lib) receive s1"
      using ne enc sp by (simp add: sendSerialFrame_list_def)
    with sl obtain s2 where pp: "parse_packet (sizeof_message lib) receive s1 = Inr (state, s2)"
      and st': "st' = log Unlock (if state then s2\<lparr>list_send := []\<rparr> else s2)"
      by (auto simp: sendList_def split: sum.splits)
    from parse_packet_keeps(4) [OF pp] obtain es2 where
      es2: "trace s2 = trace s1 @ es2" "Lock \<notin> set es2" "Unlock \<notin> set es2" by blast
    have "trace st' = trace st @ Lock #
              Serial_write (build_pkg lib p) (LNG_PACKET_HEADER lib + length_pkt p + 1)
              # (es1 @ es2) @ [Unlock]"
      using st' es1(1) es2(1) by (simp add: log_def)
    moreover have "Lock \<notin> set (es1 @ es2)" "Unlock \<notin> set (es1 @ es2)"
      using es1 es2 by simp_all
    ultimately show ?thesis by (intro exI [of _ "es1 @ es2"]) simp
  qed
  moreover have "trace (addFrame packet st) = trace st @ [Lock, Unlock]"
    by (simp add: addFrame_def log_def)
  moreover have "trace (addFrame_list packets st) = trace st @ [Lock, Unlock]"
    by (simp add: addFrame_list_def log_def)
  moreover have "trace (resetList st) = trace st @ [Lock, Unlock]"
    by (simp add: resetList_def log_def)
  ultimately show ?thesis by blast
qed

theorem mutex_scope_witness:
  "list_send (addFrame (CREATE_PACKET_RESPONSE 0 0 0)
           (constructor \<lparr> isOpen = True, on_open = Open_returns True, on_write = [], on_read = [] \<rparr>
              [] False :: (string, byte list) serial_controller)) \<noteq> []
   \<and> encoder bare_bus (list_send (addFrame (CREATE_PACKET_RESPONSE 0 0 0)
           (constructor \<lparr> isOpen = True, on_open = Open_returns True, on_write = [], on_read = [] \<rparr>
              [] False :: (string, byte list) serial_controller))) = (\<lparr> buffer = [4, 0, 0, 0], length_pkt = 4 \<rparr>, length (list_send (addFrame (CREATE_PACKET_RESPONSE 0 0 0)
           (constructor \<lparr> isOpen = True, on_open = Open_returns True, on_write = [], on_read = [] \<rparr>
              [] False :: (string, byte list) serial_controller))))
   \<and> isOpen (mSerial (addFrame (CREATE_PACKET_RESPONSE 0 0 0)
           (constructor \<lparr> isOpen = True, on_open = Open_returns True, on_write = [], on_read = [] \<rparr>
              [] False :: (string, byte list) serial_controller)))
   \<and> sendList bare_bus (addFrame (CREATE_PACKET_RESPONSE 0 0 0)
           (constructor \<lparr> isOpen = True, on_open = Open_returns True, on_write = [], on_read = [] \<rparr>
              [] False :: (string, byte list) serial_controller)) = Inr (False, snd (projr (sendList bare_bus (addFrame (CREATE_PACKET_RESPONSE 0 0 0)
           (constructor \<lparr> isOpen = True, on_open = Open_returns True, on_write = [], on_read = [] \<rparr>
              [] False :: (string, byte list) serial_controller)))))
   \<and> (\<exists>es. trace (snd (projr (sendList bare_bus (addFrame (CREATE_PACKET_RESPONSE 0 0 0)
           (constructor \<lparr> isOpen = True, on_open = Open_returns True, on_write = [], on_read = [] \<rparr>
              [] False :: (string, byte list) serial_controller))))) = trace (addFrame (CREATE_PACKET_RESPONSE 0 0 0)
           (constructor \<lparr> isOpen = True, on_open = Open_returns True, on_write = [], on_read = [] \<rparr>
              [] False :: (string, byte list) serial_controller)) @ Lock # Serial_write (build_pkg bare_bus \<lparr> buffer = [4, 0, 0, 0], length_pkt = 4 \<rparr>) (LNG_PACKET_HEADER bare_bus + length_pkt \<lparr> buffer = [4, 0, 0, 0], length_pkt = 4 \<rparr> + 1)
                # es @ [Unlock]
          \<and> Lock \<notin> set es \<and> Unlock \<notin> set es
          \<and> serial_call_locked False (Lock # Serial_write (build_pkg bare_bus \<lparr> buffer = [4, 0, 0, 0], length_pkt = 4 \<rparr>) (LNG_PACKET_HEADER bare_bus + length_pkt \<lparr> buffer = [4, 0, 0, 0], length_pkt = 4 \<rparr> + 1)
                # es @ [Unlock]))"
proof -
  let ?Q = "(addFrame (CREATE_PACKET_RESPONSE 0 0 0)
           (constructor \<lparr> isOpen = True, on_open = Open_returns True, on_write = [], on_read = [] \<rparr>
              [] False :: (string, byte list) serial_controller))"
  let ?P = "\<lparr> buffer = [4, 0, 0, 0], length_pkt = 4 \<rparr>"
  have 1: "list_send ?Q \<noteq> []"
    by (simp add: addFrame_def constructor_def log_def)
  have 2: "encoder bare_bus (list_send ?Q) = (?P, length (list_send ?Q))"
    by (simp add: addFrame_def constructor_def log_def bare_bus_def encoder_model_def
        encode_info_def CREATE_PACKET_RESPONSE_def)
  have 3: "isOpen (mSerial ?Q)"
    by (simp add: addFrame_def constructor_def log_def)
  have "\<exists>st'. sendList bare_bus ?Q = Inr (False, st')"
    by (simp add: sendList_def sendSerialFrame_list_def sendSerialPacket_def readPacket_def
      writePacket_def parse_packet_def addFrame_def constructor_def bare_bus_def
      encoder_model_def encode_info_def CREATE_PACKET_RESPONSE_def log_def Let_def)
  then have 4: "sendList bare_bus ?Q = Inr (False, snd (projr (sendList bare_bus ?Q)))"
    by auto
  from mutex_scope [of _ ?Q _ bare_bus ?P False "snd (projr (sendList bare_bus ?Q))"] 1 2 3 4
  show ?thesis by blast
qed

text \<open>
  C10 (the code departs from the claim). The claim: for a motor number that is not
  below the number of motor names, \<^verbatim>\<open>allMotorsFrame\<close> only prints a warning and
  \<^verbatim>\<open>mMotorName.at\<close> is not reached. The code: the test
  \<^verbatim>\<open>number_motor >= 0 || number_motor < mMotorName.size()\<close> holds for every motor
  number, so the lookup is always reached, the warning never, and a motor number out of
  range ends in the exception of \<^verbatim>\<open>at\<close>.
\<close>

theorem allMotorsFrame_lookup_always:
  "allMotorsFrame bitset_motor bitset_command mMotorName opt t cmd msg =
     (if bitset_motor cmd < length mMotorName
      then Inr (MotorFrame (mMotorName ! bitset_motor cmd) opt t (bitset_command cmd) msg)
      else Inl Out_of_range)"
  by (simp add: allMotorsFrame_def at_def)

end
